theory Spec2Isabelle
  imports
    Complex_Main
    "HOL-Library.Multiset"
    "HOL-Library.Sublist"
    "HOL-Library.Char_ord"
    "HOL-Library.List_Lexorder"
begin

section \<open>The host language: values, strings, objects, sorting\<close>

text \<open>
  The widgets are TypeScript; what they compute depends on a handful of JavaScript
  primitives, which are written out here once.

  Field values are the scalars of the data model: absent (\<open>undefined\<close>), \<open>null\<close>,
  booleans, numbers and strings. Numbers are whole numbers (below \<open>2^53\<close> a double holds
  them exactly); fractions, infinities and \<open>NaN\<close> as field values are outside the model.
  Strings are byte strings: case mapping and white space cover ASCII.
\<close>

datatype jsval = JUndefined | JNull | JBool bool | JNum int | JStr string

subsection \<open>Strings\<close>

definition digitChar :: "nat \<Rightarrow> char" where
  "digitChar d = ''0123456789'' ! (d mod 10)"

fun showNat :: "nat \<Rightarrow> string" where
  "showNat n = (if n < 10 then [digitChar n] else showNat (n div 10) @ [digitChar (n mod 10)])"

declare showNat.simps [simp del]

definition showInt :: "int \<Rightarrow> string" where
  "showInt i = (if i < 0 then CHR ''-'' # showNat (nat (- i)) else showNat (nat i))"

text \<open>\<open>String(v)\<close>.\<close>

fun jsString :: "jsval \<Rightarrow> string" where
  "jsString JUndefined = ''undefined''"
| "jsString JNull = ''null''"
| "jsString (JBool b) = (if b then ''true'' else ''false'')"
| "jsString (JNum n) = showInt n"
| "jsString (JStr s) = s"

definition lowerChar :: "char \<Rightarrow> char" where
  "lowerChar c =
     (case map_of (zip ''ABCDEFGHIJKLMNOPQRSTUVWXYZ'' ''abcdefghijklmnopqrstuvwxyz'') c of
        None \<Rightarrow> c
      | Some d \<Rightarrow> d)"

definition toLowerCase :: "string \<Rightarrow> string" where
  "toLowerCase s = map lowerChar s"

text \<open>\<open>s.indexOf(t)\<close>: the first position at which \<open>t\<close> occurs in \<open>s\<close>, or \<open>-1\<close>.\<close>

fun indexOfFrom :: "nat \<Rightarrow> string \<Rightarrow> string \<Rightarrow> int" where
  "indexOfFrom i [] t = (if t = [] then int i else - 1)"
| "indexOfFrom i (c # s) t = (if prefix t (c # s) then int i else indexOfFrom (Suc i) s t)"

definition indexOf :: "string \<Rightarrow> string \<Rightarrow> int" where
  "indexOf s t = indexOfFrom 0 s t"

text \<open>\<open>s.includes(t)\<close>.\<close>

definition includesStr :: "string \<Rightarrow> string \<Rightarrow> bool" where
  "includesStr s t = (indexOf s t \<noteq> - 1)"

definition isWhiteSpace :: "char \<Rightarrow> bool" where
  "isWhiteSpace c = (c \<in> set [CHR '' '', CHR 0x09, CHR 0x0A, CHR 0x0B, CHR 0x0C, CHR 0x0D])"

text \<open>\<open>s.trim()\<close>.\<close>

definition trim :: "string \<Rightarrow> string" where
  "trim s = rev (dropWhile isWhiteSpace (rev (dropWhile isWhiteSpace s)))"

subsection \<open>Relational comparison\<close>

definition isDigit :: "char \<Rightarrow> bool" where
  "isDigit c = (c \<in> set ''0123456789'')"

definition digitVal :: "char \<Rightarrow> int" where
  "digitVal c = (case map_of (zip ''0123456789'' [0, 1, 2, 3, 4, 5, 6, 7, 8, 9]) c of
                   None \<Rightarrow> 0 | Some d \<Rightarrow> d)"

definition digitsVal :: "string \<Rightarrow> int" where
  "digitsVal s = foldl (\<lambda>acc c. 10 * acc + digitVal c) 0 s"

text \<open>
  \<open>Number(s)\<close> for a string, \<open>None\<close> standing for \<open>NaN\<close>: white space is trimmed, the
  empty string is \<open>0\<close>, an optionally signed run of decimal digits is its value. The other
  numeric spellings (fractions, exponents, \<open>0x\<close>, \<open>Infinity\<close>) denote numbers that the
  value model does not have. \<open>nonNumeric\<close> below singles out strings that are \<open>NaN\<close>
  whatever the spelling and trimming rules: after leading ASCII white space they start
  with a letter other than \<open>I\<close>, where every numeric spelling starts with a digit, a
  sign, a dot or \<open>Infinity\<close>, and no white space of the language is a letter.
\<close>

definition stringToNumber :: "string \<Rightarrow> int option" where
  "stringToNumber s =
     (let t = trim s in
      case t of
        [] \<Rightarrow> Some 0
      | c # r \<Rightarrow>
          if c = CHR ''-'' \<and> r \<noteq> [] \<and> list_all isDigit r then Some (- digitsVal r)
          else if c = CHR ''+'' \<and> r \<noteq> [] \<and> list_all isDigit r then Some (digitsVal r)
          else if list_all isDigit t then Some (digitsVal t)
          else None)"

definition isLetterNotI :: "char \<Rightarrow> bool" where
  "isLetterNotI c = (c \<in> set ''abcdefghijklmnopqrstuvwxyzABCDEFGHJKLMNOPQRSTUVWXYZ'')"

definition nonNumeric :: "string \<Rightarrow> bool" where
  "nonNumeric s = (case dropWhile isWhiteSpace s of [] \<Rightarrow> False | c # r \<Rightarrow> isLetterNotI c)"

text \<open>\<open>Number(v)\<close>.\<close>

fun toNumber :: "jsval \<Rightarrow> int option" where
  "toNumber JUndefined = None"
| "toNumber JNull = Some 0"
| "toNumber (JBool b) = Some (if b then 1 else 0)"
| "toNumber (JNum n) = Some n"
| "toNumber (JStr s) = stringToNumber s"

text \<open>
  \<open>a < b\<close> on numbers that may be \<open>NaN\<close>: false as soon as one side is.
\<close>

definition numLess :: "int option \<Rightarrow> int option \<Rightarrow> bool" where
  "numLess a b = (case a of None \<Rightarrow> False | Some x \<Rightarrow> (case b of None \<Rightarrow> False | Some y \<Rightarrow> x < y))"

text \<open>
  \<open>a < b\<close> on values: two strings are compared unit by unit, anything else after
  conversion to numbers. \<open>a > b\<close> is \<open>jsLess b a\<close>.
\<close>

fun jsLess :: "jsval \<Rightarrow> jsval \<Rightarrow> bool" where
  "jsLess (JStr s) (JStr t) = (s < t)"
| "jsLess a b = numLess (toNumber a) (toNumber b)"

subsection \<open>Objects used as dictionaries\<close>

text \<open>
  An object literal \<open>{}\<close> holds its own properties, in creation order, and inherits the
  members of \<open>Object.prototype\<close>. Reading a key that is not an own property finds the
  inherited member when the key is one of these names, and \<open>undefined\<close> otherwise.
\<close>

type_synonym 'a jsobj = "(string \<times> 'a) list"

definition objectPrototypeNames :: "string list" where
  "objectPrototypeNames =
     [''constructor'', ''__defineGetter__'', ''__defineSetter__'', ''hasOwnProperty'',
      ''__lookupGetter__'', ''__lookupSetter__'', ''isPrototypeOf'', ''propertyIsEnumerable'',
      ''toString'', ''valueOf'', ''__proto__'', ''toLocaleString'']"

datatype 'a member = Own 'a | Inherited | Absent

definition getProp :: "'a jsobj \<Rightarrow> string \<Rightarrow> 'a member" where
  "getProp obj k =
     (case map_of obj k of
        Some v \<Rightarrow> Own v
      | None \<Rightarrow> if k \<in> set objectPrototypeNames then Inherited else Absent)"

text \<open>\<open>obj[k] = v\<close>: an existing own property keeps its place, a new one goes last.\<close>

fun setProp :: "'a jsobj \<Rightarrow> string \<Rightarrow> 'a \<Rightarrow> 'a jsobj" where
  "setProp [] k v = [(k, v)]"
| "setProp (p # ps) k v = (if fst p = k then (k, v) # ps else p # setProp ps k v)"

text \<open>The own bucket stored under a key, empty when there is none.\<close>

definition bucketOf :: "'a list jsobj \<Rightarrow> string \<Rightarrow> 'a list" where
  "bucketOf groups k = (case map_of groups k of None \<Rightarrow> [] | Some b \<Rightarrow> b)"

text \<open>
  \<open>Object.keys(obj)\<close>: the keys that are array indices (canonical decimal numerals up to
  \<open>2^32 - 2\<close>) come first, in ascending numeric order, then the other keys in creation
  order.
\<close>

definition isArrayIndex :: "string \<Rightarrow> bool" where
  "isArrayIndex s =
     (s \<noteq> [] \<and> list_all isDigit s \<and> (s = ''0'' \<or> hd s \<noteq> CHR ''0'') \<and> digitsVal s < 4294967295)"

definition objectKeys :: "'a jsobj \<Rightarrow> string list" where
  "objectKeys obj =
     sort_key digitsVal (filter isArrayIndex (map fst obj)) @
     filter (\<lambda>k. \<not> isArrayIndex k) (map fst obj)"

subsection \<open>Array.prototype.sort\<close>

text \<open>
  \<open>xs.sort(cmp)\<close> is a stable sort; the comparator returns a number (\<open>NaN\<close> read as
  \<open>0\<close>), negative when its first argument goes first. The language fixes the result
  whenever the comparator is a consistent ordering of the elements, and leaves the order to
  the engine otherwise. The model follows the engine (V8), which only ever tests whether a
  comparison is negative.

  An array of fewer than 64 elements is sorted as a single run. \<open>countAndMakeRun\<close> takes
  the longest run at the front: the elements each not below the one before (ascending), or
  each below the one before (descending), in which case the run is reversed.
\<close>

fun extendRun :: "bool \<Rightarrow> ('a \<Rightarrow> 'a \<Rightarrow> int) \<Rightarrow> 'a \<Rightarrow> 'a list \<Rightarrow> 'a list \<times> 'a list" where
  "extendRun descending cmp previous [] = ([], [])"
| "extendRun descending cmp previous (current # rest) =
     (if (if descending then 0 \<le> cmp current previous else cmp current previous < 0)
      then ([], current # rest)
      else (case extendRun descending cmp current rest of
              (run, others) \<Rightarrow> (current # run, others)))"

fun countAndMakeRun :: "('a \<Rightarrow> 'a \<Rightarrow> int) \<Rightarrow> 'a list \<Rightarrow> 'a list \<times> 'a list" where
  "countAndMakeRun cmp (x0 # x1 # xs) =
     (case extendRun (cmp x1 x0 < 0) cmp x1 xs of
        (run, others) \<Rightarrow>
          (if cmp x1 x0 < 0 then rev (x0 # x1 # run) else x0 # x1 # run, others))"
| "countAndMakeRun cmp xs = (xs, [])"

text \<open>
  The other elements are inserted one by one into the part already placed, at the position
  that a binary search finds:
  \<^verbatim>\<open>
  while (left < right) {
    const mid = left + ((right - left) >> 1);
    const order = Compare(pivot, workArray[mid]);
    if (order < 0) right = mid; else left = mid + 1;
  }
  \<close>
  The search starts with \<open>left = 0\<close> and \<open>right\<close> the number of placed elements, so
  \<open>mid\<close> is always the index of a placed element.
\<close>

function binarySearch :: "('a \<Rightarrow> 'a \<Rightarrow> int) \<Rightarrow> 'a \<Rightarrow> 'a list \<Rightarrow> nat \<Rightarrow> nat \<Rightarrow> nat" where
  "binarySearch cmp pivot placed left right =
     (if left < right then
        (if cmp pivot (placed ! (left + (right - left) div 2)) < 0
         then binarySearch cmp pivot placed left (left + (right - left) div 2)
         else binarySearch cmp pivot placed (left + (right - left) div 2 + 1) right)
      else left)"
  by pat_completeness auto
termination
  by (relation "measure (\<lambda>(cmp, pivot, placed, left, right). right - left)") auto

declare binarySearch.simps [simp del]

definition binaryInsert :: "('a \<Rightarrow> 'a \<Rightarrow> int) \<Rightarrow> 'a \<Rightarrow> 'a list \<Rightarrow> 'a list" where
  "binaryInsert cmp pivot placed =
     (let i = binarySearch cmp pivot placed 0 (length placed)
      in take i placed @ pivot # drop i placed)"

text \<open>
  Longer arrays are cut into several such runs, which the engine merges; on a consistent
  comparator the result is the same stable order. The model sorts them as a single run
  too.
\<close>

definition arraySort :: "('a \<Rightarrow> 'a \<Rightarrow> int) \<Rightarrow> 'a list \<Rightarrow> 'a list" where
  "arraySort cmp xs =
     (case countAndMakeRun cmp xs of
        (run, others) \<Rightarrow> foldl (\<lambda>placed pivot. binaryInsert cmp pivot placed) run others)"



section \<open>The data table (data-table.tsx)\<close>

text \<open>
  A row is an object read by column key: \<open>row[key]\<close> is the value of the own field, and
  \<open>undefined\<close> when the row has no such field. Column keys are names of data fields;
  none is the name of a member that a row inherits from \<open>Object.prototype\<close>.
\<close>

type_synonym DataTableRow = "(string \<times> jsval) list"

definition getField :: "DataTableRow \<Rightarrow> string \<Rightarrow> jsval" where
  "getField row k = (case map_of row k of None \<Rightarrow> JUndefined | Some v \<Rightarrow> v)"

datatype ColumnFormat = Currency | Percentage | Date | Number | Text

record DataTableColumn =
  key :: string
  label :: string
  sortable :: "bool option"
  filterable :: "bool option"
  format :: "ColumnFormat option"
  width :: "string option"

datatype SortDirection = Asc | Desc

text \<open>
  The comparator of \<open>sortedData\<close>, for a sort key and a direction:
  \<^verbatim>\<open>
  if (aValue === null || aValue === undefined) return 1;
  if (bValue === null || bValue === undefined) return -1;
  if (aValue < bValue) return sortConfig.direction === 'asc' ? -1 : 1;
  if (aValue > bValue) return sortConfig.direction === 'asc' ? 1 : -1;
  return 0;
  \<close>
\<close>

definition isMissing :: "jsval \<Rightarrow> bool" where
  "isMissing v = (v = JNull \<or> v = JUndefined)"

definition compareRows :: "string \<Rightarrow> SortDirection \<Rightarrow> DataTableRow \<Rightarrow> DataTableRow \<Rightarrow> int" where
  "compareRows k direction a b =
     (let aValue = getField a k; bValue = getField b k in
      if isMissing aValue then 1
      else if isMissing bValue then - 1
      else if jsLess aValue bValue then (if direction = Asc then - 1 else 1)
      else if jsLess bValue aValue then (if direction = Asc then 1 else - 1)
      else 0)"

text \<open>
  \<open>sortConfig\<close> is \<open>null\<close>, or a key with a direction that may itself be \<open>null\<close>
  (the third state of the header toggle); in both cases the data is returned as it is.
\<close>

definition sortedData :: "(string \<times> SortDirection option) option \<Rightarrow> DataTableRow list \<Rightarrow> DataTableRow list" where
  "sortedData sortConfig data =
     (case sortConfig of
        None \<Rightarrow> data
      | Some (k, None) \<Rightarrow> data
      | Some (k, Some direction) \<Rightarrow> arraySort (compareRows k direction) data)"






text \<open>
  The column filters are the entries of the \<open>filters\<close> object, in its order; the loop
  returns \<open>false\<close> at the first non-empty filter value that the row's field does not
  contain.
\<close>

fun passesFilters :: "(string \<times> string) list \<Rightarrow> DataTableRow \<Rightarrow> bool" where
  "passesFilters [] row = True"
| "passesFilters ((k, v) # rest) row =
     (if v \<noteq> [] \<and> indexOf (toLowerCase (jsString (getField row k))) (toLowerCase v) = - 1
      then False
      else passesFilters rest row)"

definition matchesSearch :: "string \<Rightarrow> DataTableColumn list \<Rightarrow> DataTableRow \<Rightarrow> bool" where
  "matchesSearch searchTerm columns row =
     (let searchLower = toLowerCase searchTerm in
      list_ex (\<lambda>col. indexOf (toLowerCase (jsString (getField row (key col)))) searchLower \<noteq> - 1)
        columns)"

definition keepsRow :: "(string \<times> string) list \<Rightarrow> string \<Rightarrow> DataTableColumn list \<Rightarrow> DataTableRow \<Rightarrow> bool" where
  "keepsRow filters searchTerm columns row =
     (if \<not> passesFilters filters row then False
      else if searchTerm \<noteq> [] then matchesSearch searchTerm columns row
      else True)"

definition filteredData ::
  "(string \<times> string) list \<Rightarrow> string \<Rightarrow> DataTableColumn list \<Rightarrow> DataTableRow list \<Rightarrow> DataTableRow list" where
  "filteredData filters searchTerm columns rows = filter (keepsRow filters searchTerm columns) rows"




section \<open>Tasks\<close>

text \<open>
  The task shape shared by the task list, the kanban board and the task service. Status
  and priority are strings at run time; the functions below that take a \<open>string\<close>
  handle names outside the four they know.
\<close>

record Task =
  id_task :: string
  title :: string
  description :: "string option"
  status :: string
  priority :: string
  assignee :: "string option"
  dueDate :: "string option"
  createdDate :: string
  updatedDate :: string
  project :: string
  tags :: "string list option"
  estimatedHours :: "int option"
  actualHours :: "int option"

datatype error = TypeError string

section \<open>The task list (task-list.tsx)\<close>

datatype GroupBy = ByStatus | ByPriority | ByAssignee | ByProject | ByNone

text \<open>\<open>task[groupBy]\<close> for the four grouping fields.\<close>

fun groupField :: "GroupBy \<Rightarrow> Task \<Rightarrow> string option" where
  "groupField ByStatus t = Some (Task.status t)"
| "groupField ByPriority t = Some (Task.priority t)"
| "groupField ByAssignee t = Task.assignee t"
| "groupField ByProject t = Some (Task.project t)"
| "groupField ByNone t = None"

text \<open>\<open>task[groupBy] || "Uncategorized"\<close>: an absent or empty field is falsy.\<close>

definition groupKey :: "GroupBy \<Rightarrow> Task \<Rightarrow> string" where
  "groupKey groupBy t =
     (case groupField groupBy t of
        None \<Rightarrow> ''Uncategorized''
      | Some s \<Rightarrow> if s = [] then ''Uncategorized'' else s)"

text \<open>
  One step of the \<open>reduce\<close>:
  \<^verbatim>\<open>
  if (!groups[key]) groups[key] = [];
  groups[key].push(task);
  \<close>
  An own bucket is an array, which is truthy. An inherited member of \<open>Object.prototype\<close>
  is truthy as well, so no bucket is created for it, and it has no \<open>push\<close>: the call
  raises a \<open>TypeError\<close>.
\<close>

definition pushToGroup :: "'a list jsobj \<Rightarrow> string \<Rightarrow> 'a \<Rightarrow> error + 'a list jsobj" where
  "pushToGroup groups k x =
     (case getProp groups k of
        Absent \<Rightarrow> Inr (setProp groups k [x])
      | Own bucket \<Rightarrow> Inr (setProp groups k (bucket @ [x]))
      | Inherited \<Rightarrow> Inl (TypeError ''groups[key].push is not a function''))"

fun reduceGroups :: "('a \<Rightarrow> string) \<Rightarrow> 'a list jsobj \<Rightarrow> 'a list \<Rightarrow> error + 'a list jsobj" where
  "reduceGroups keyOf groups [] = Inr groups"
| "reduceGroups keyOf groups (x # xs) =
     (case pushToGroup groups (keyOf x) x of
        Inl e \<Rightarrow> Inl e
      | Inr groups' \<Rightarrow> reduceGroups keyOf groups' xs)"

definition groupTasks :: "Task list \<Rightarrow> GroupBy \<Rightarrow> error + Task list jsobj" where
  "groupTasks tasks groupBy =
     (if groupBy = ByNone then Inr [(''All Tasks'', tasks)]
      else reduceGroups (groupKey groupBy) [] tasks)"

text \<open>
  \<open>filterTasks\<close>: a blank query returns the tasks; otherwise the query is lower-cased
  (not trimmed) and looked for in the title, and in the description, assignee, project
  and tags that are present.
\<close>

definition truthyIncludes :: "string option \<Rightarrow> string \<Rightarrow> bool" where
  "truthyIncludes field query =
     (case field of None \<Rightarrow> False | Some s \<Rightarrow> s \<noteq> [] \<and> includesStr (toLowerCase s) query)"

definition taskMatches :: "string \<Rightarrow> Task \<Rightarrow> bool" where
  "taskMatches query t =
     (if includesStr (toLowerCase (Task.title t)) query then True
      else if truthyIncludes (Task.description t) query then True
      else if truthyIncludes (Task.assignee t) query then True
      else if truthyIncludes (Some (Task.project t)) query then True
      else (case Task.tags t of
              None \<Rightarrow> False
            | Some ts \<Rightarrow> list_ex (\<lambda>tag. includesStr (toLowerCase tag) query) ts))"

definition filterTasks :: "Task list \<Rightarrow> string \<Rightarrow> Task list" where
  "filterTasks tasks searchQuery =
     (if trim searchQuery = [] then tasks
      else filter (taskMatches (toLowerCase searchQuery)) tasks)"

text \<open>
  \<open>order[priority] || 999\<close>, on an object literal. A rank of \<open>0\<close> is falsy, as an
  absent entry is. An inherited member is returned as it is, and is no number: \<open>None\<close>.
\<close>

definition rankOr999 :: "int jsobj \<Rightarrow> string \<Rightarrow> int option" where
  "rankOr999 order k =
     (case getProp order k of
        Own v \<Rightarrow> Some (if v = 0 then 999 else v)
      | Inherited \<Rightarrow> None
      | Absent \<Rightarrow> Some 999)"

definition getPriorityOrder :: "string \<Rightarrow> int option" where
  "getPriorityOrder p = rankOr999 [(''critical'', 0), (''high'', 1), (''medium'', 2), (''low'', 3)] p"

definition getStatusOrder :: "string \<Rightarrow> int option" where
  "getStatusOrder st = rankOr999 [(''todo'', 0), (''in-progress'', 1), (''review'', 2), (''done'', 3)] st"

text \<open>
  The difference of two ranks as a comparator result: \<open>NaN\<close> (when a side is no number)
  is read by the sort as \<open>0\<close>.
\<close>

definition rankDifference :: "int option \<Rightarrow> int option \<Rightarrow> int" where
  "rankDifference a b =
     (case a of None \<Rightarrow> 0 | Some x \<Rightarrow> (case b of None \<Rightarrow> 0 | Some y \<Rightarrow> x - y))"

text \<open>
  The comparator of \<open>sortedGroupKeys\<close>. \<open>localeCompare\<close> is the host's collation, a
  parameter.
\<close>

definition compareGroupKeys :: "(string \<Rightarrow> string \<Rightarrow> int) \<Rightarrow> GroupBy \<Rightarrow> string \<Rightarrow> string \<Rightarrow> int" where
  "compareGroupKeys localeCompare groupBy a b =
     (if groupBy = ByPriority then rankDifference (getPriorityOrder a) (getPriorityOrder b)
      else if groupBy = ByStatus then rankDifference (getStatusOrder a) (getStatusOrder b)
      else localeCompare a b)"

definition sortedGroupKeys :: "(string \<Rightarrow> string \<Rightarrow> int) \<Rightarrow> GroupBy \<Rightarrow> 'a jsobj \<Rightarrow> string list" where
  "sortedGroupKeys localeCompare groupBy groupedTasks =
     arraySort (compareGroupKeys localeCompare groupBy) (objectKeys groupedTasks)"

text \<open>
  The group headings of the task list, top to bottom, for a search query and a grouping:
  filter, group, sort the keys.
\<close>

definition taskListKeys :: "(string \<Rightarrow> string \<Rightarrow> int) \<Rightarrow> string \<Rightarrow> GroupBy \<Rightarrow> Task list \<Rightarrow> error + string list" where
  "taskListKeys localeCompare searchQuery groupBy tasks =
     (case groupTasks (filterTasks tasks searchQuery) groupBy of
        Inl e \<Rightarrow> Inl e
      | Inr groupedTasks \<Rightarrow> Inr (sortedGroupKeys localeCompare groupBy groupedTasks))"

section \<open>The kanban board (kanban-board.tsx)\<close>

definition defaultColumns :: "string list" where
  "defaultColumns = [''To Do'', ''In Progress'', ''In Review'', ''Done'']"

definition statusToColumn :: "string \<Rightarrow> string" where
  "statusToColumn st =
     (if st = ''todo'' then ''To Do''
      else if st = ''in-progress'' then ''In Progress''
      else if st = ''review'' then ''In Review''
      else if st = ''done'' then ''Done''
      else ''To Do'')"

definition tasksByColumn :: "Task list \<Rightarrow> error + Task list jsobj" where
  "tasksByColumn tasks = reduceGroups (\<lambda>t. statusToColumn (Task.status t)) [] tasks"

text \<open>
  \<open>tasksByColumn[column] || []\<close>: the bucket, or the empty list when there is none. For a
  column named like a member of \<open>Object.prototype\<close> the value is that member and no task
  list: \<open>None\<close>.
\<close>

definition columnTasks :: "Task list jsobj \<Rightarrow> string \<Rightarrow> Task list option" where
  "columnTasks acc column =
     (case getProp acc column of
        Own bucket \<Rightarrow> Some bucket
      | Absent \<Rightarrow> Some []
      | Inherited \<Rightarrow> None)"

text \<open>The counts shown in the column headers, left to right.\<close>

definition columnCounts :: "Task list \<Rightarrow> string list \<Rightarrow> error + nat option list" where
  "columnCounts tasks columns =
     (case tasksByColumn tasks of
        Inl e \<Rightarrow> Inl e
      | Inr acc \<Rightarrow> Inr (map (\<lambda>column. map_option length (columnTasks acc column)) columns))"


section \<open>The issue list (linear-issue-list.tsx)\<close>

record IssueAssignee =
  name :: string
  avatarUrl :: "string option"

record IssueProject =
  name :: string
  color :: "string option"

record IssueLabel =
  name :: string
  color :: "string option"

record LinearIssue =
  id_issue :: string
  identifier_issue :: string
  title :: string
  description :: "string option"
  status :: string
  priority :: string
  assignee :: "IssueAssignee option"
  project :: "IssueProject option"
  labels :: "IssueLabel list option"
  createdAt :: string
  updatedAt :: string
  dueDate :: "string option"
  estimate :: "int option"

text \<open>\<open>x || fallback\<close> on an optional string.\<close>

definition orElse :: "string option \<Rightarrow> string \<Rightarrow> string" where
  "orElse x fallback = (case x of None \<Rightarrow> fallback | Some s \<Rightarrow> if s = [] then fallback else s)"

definition issueKey :: "string \<Rightarrow> LinearIssue \<Rightarrow> string" where
  "issueKey groupBy issue =
     (if groupBy = ''status'' then LinearIssue.status issue
      else if groupBy = ''priority'' then LinearIssue.priority issue
      else if groupBy = ''project'' then
        orElse (map_option IssueProject.name (LinearIssue.project issue)) ''No Project''
      else if groupBy = ''assignee'' then
        orElse (map_option IssueAssignee.name (LinearIssue.assignee issue)) ''Unassigned''
      else ''Other'')"

definition groupIssues :: "LinearIssue list \<Rightarrow> string \<Rightarrow> error + LinearIssue list jsobj" where
  "groupIssues issues groupBy =
     (if groupBy = ''none'' then Inr [(''All Issues'', issues)]
      else reduceGroups (issueKey groupBy) [] issues)"

section \<open>The task service (project-management.ts)\<close>

subsection \<open>Dates\<close>

text \<open>
  \<open>new Date(s)\<close> read as its time value in milliseconds, \<open>None\<close> for an invalid date.
  The service's dates are ISO calendar dates \<open>YYYY-MM-DD\<close>, which denote midnight UTC;
  other spellings are read by the host in ways of its own and are taken as invalid here.
\<close>

definition isLeapYear :: "int \<Rightarrow> bool" where
  "isLeapYear y = (y mod 4 = 0 \<and> (y mod 100 \<noteq> 0 \<or> y mod 400 = 0))"

definition daysInMonth :: "int \<Rightarrow> int \<Rightarrow> int" where
  "daysInMonth y m =
     (if m = 2 then (if isLeapYear y then 29 else 28)
      else if m \<in> set [4, 6, 9, 11] then 30
      else 31)"

definition daysFromCivil :: "int \<Rightarrow> int \<Rightarrow> int \<Rightarrow> int" where
  "daysFromCivil y m d =
     (let y' = (if m \<le> 2 then y - 1 else y);
          era = y' div 400;
          yoe = y' - era * 400;
          doy = (153 * (if 2 < m then m - 3 else m + 9) + 2) div 5 + d - 1;
          doe = yoe * 365 + yoe div 4 - yoe div 100 + doy
      in era * 146097 + doe - 719468)"

definition parseDate :: "string \<Rightarrow> int option" where
  "parseDate s =
     (if length s = 10 \<and> s ! 4 = CHR ''-'' \<and> s ! 7 = CHR ''-''
         \<and> list_all isDigit (take 4 s) \<and> list_all isDigit (take 2 (drop 5 s))
         \<and> list_all isDigit (drop 8 s)
      then
        (let y = digitsVal (take 4 s);
             m = digitsVal (take 2 (drop 5 s));
             d = digitsVal (drop 8 s)
         in if 1 \<le> m \<and> m \<le> 12 \<and> 1 \<le> d \<and> d \<le> daysInMonth y m
            then Some (daysFromCivil y m d * 86400000)
            else None)
      else None)"

subsection \<open>getTasks\<close>

datatype SortBy = SortDueDate | SortPriority | SortCreatedDate

record TaskFilters =
  status :: "string option"
  priority :: "string option"
  assignee :: "string option"
  project :: "string option"
  overdue :: "bool option"
  sortBy :: "SortBy option"
  sortOrder :: "SortDirection option"

text \<open>\<open>if (filters?.f) tasks = tasks.filter(task => task.f === filters.f)\<close>.\<close>

definition filterWhen :: "string option \<Rightarrow> (Task \<Rightarrow> string option) \<Rightarrow> Task list \<Rightarrow> Task list" where
  "filterWhen wanted field tasks =
     (case wanted of
        None \<Rightarrow> tasks
      | Some w \<Rightarrow> if w = [] then tasks else filter (\<lambda>t. field t = Some w) tasks)"

definition isOverdue :: "int \<Rightarrow> Task \<Rightarrow> bool" where
  "isOverdue now t =
     (case Task.dueDate t of
        None \<Rightarrow> False
      | Some s \<Rightarrow> s \<noteq> [] \<and> numLess (parseDate s) (Some now) \<and> Task.status t \<noteq> ''done'')"

text \<open>
  The value a task is sorted by. A priority is looked up in
  \<open>{low: 1, medium: 2, high: 3, critical: 4}\<close>; a date is \<open>new Date(0)\<close> when the field is
  absent or empty. \<open>None\<close> is a value that compares as \<open>NaN\<close>: an invalid date, or the
  missing rank of a priority outside the four of the \<open>Task\<close> type. \<open>sortBy\<close> has
  three values, so the last branch of the source's chain (\<open>a[sortBy] || ""\<close>) is never
  taken.
\<close>

definition dateOrEpoch :: "string option \<Rightarrow> int option" where
  "dateOrEpoch field =
     (case field of None \<Rightarrow> Some 0 | Some s \<Rightarrow> if s = [] then Some 0 else parseDate s)"

fun sortValue :: "SortBy \<Rightarrow> Task \<Rightarrow> int option" where
  "sortValue SortPriority t =
     map_of [(''low'', 1), (''medium'', 2), (''high'', 3), (''critical'', 4)] (Task.priority t)"
| "sortValue SortDueDate t = dateOrEpoch (Task.dueDate t)"
| "sortValue SortCreatedDate t = dateOrEpoch (Some (Task.createdDate t))"

text \<open>
  \<^verbatim>\<open>
  const order = filters.sortOrder === "desc" ? -1 : 1;
  if (aValue > bValue) return order;
  if (aValue < bValue) return -order;
  return 0;
  \<close>
\<close>

definition compareTasks :: "SortBy \<Rightarrow> SortDirection option \<Rightarrow> Task \<Rightarrow> Task \<Rightarrow> int" where
  "compareTasks sb so a b =
     (let aValue = sortValue sb a; bValue = sortValue sb b;
          order = (if so = Some Desc then - 1 else 1)
      in if numLess bValue aValue then order
         else if numLess aValue bValue then - order
         else 0)"

text \<open>
  \<open>getTasks\<close> on the current contents of the task store, at the clock reading \<open>now\<close>.
\<close>

definition getTasks :: "Task list \<Rightarrow> int \<Rightarrow> TaskFilters \<Rightarrow> Task list" where
  "getTasks mockTasks now filters =
     (let t1 = filterWhen (TaskFilters.status filters) (\<lambda>t. Some (Task.status t)) mockTasks;
          t2 = filterWhen (TaskFilters.priority filters) (\<lambda>t. Some (Task.priority t)) t1;
          t3 = filterWhen (TaskFilters.assignee filters) Task.assignee t2;
          t4 = filterWhen (TaskFilters.project filters) (\<lambda>t. Some (Task.project t)) t3;
          t5 = (if TaskFilters.overdue filters = Some True then filter (isOverdue now) t4 else t4)
      in case TaskFilters.sortBy filters of
           None \<Rightarrow> t5
         | Some sb \<Rightarrow> arraySort (compareTasks sb (TaskFilters.sortOrder filters)) t5)"


subsection \<open>The mock data\<close>

definition task1 :: Task where
  "task1 = \<lparr>id_task = ''task-1'', title = ''Design homepage mockup'',
     description = Some ''Create high-fidelity mockup for the new homepage'',
     status = ''in-progress'', priority = ''high'', assignee = Some ''Alice Chen'',
     dueDate = Some ''2024-03-15'', createdDate = ''2024-03-01'', updatedDate = ''2024-03-10'',
     project = ''Website Redesign'', tags = Some [''design'', ''ui/ux''],
     estimatedHours = Some 16, actualHours = Some 12\<rparr>"

definition task2 :: Task where
  "task2 = \<lparr>id_task = ''task-2'', title = ''Implement user authentication'',
     description = Some ''Add login/signup functionality to the app'',
     status = ''todo'', priority = ''critical'', assignee = Some ''Bob Smith'',
     dueDate = Some ''2024-03-20'', createdDate = ''2024-03-05'', updatedDate = ''2024-03-05'',
     project = ''Mobile App Launch'', tags = Some [''backend'', ''security''],
     estimatedHours = Some 24, actualHours = None\<rparr>"

definition task3 :: Task where
  "task3 = \<lparr>id_task = ''task-3'', title = ''Write API documentation'',
     description = None,
     status = ''review'', priority = ''medium'', assignee = Some ''Carol Johnson'',
     dueDate = Some ''2024-03-18'', createdDate = ''2024-03-02'', updatedDate = ''2024-03-12'',
     project = ''Website Redesign'', tags = Some [''documentation''],
     estimatedHours = Some 8, actualHours = Some 6\<rparr>"

definition task4 :: Task where
  "task4 = \<lparr>id_task = ''task-4'', title = ''Database optimization'',
     description = Some ''Optimize database queries for better performance'',
     status = ''done'', priority = ''medium'', assignee = Some ''David Kim'',
     dueDate = Some ''2024-03-10'', createdDate = ''2024-03-01'', updatedDate = ''2024-03-09'',
     project = ''Mobile App Launch'', tags = Some [''backend'', ''performance''],
     estimatedHours = Some 12, actualHours = Some 10\<rparr>"

definition task5 :: Task where
  "task5 = \<lparr>id_task = ''task-5'', title = ''User testing session'',
     description = None,
     status = ''todo'', priority = ''low'', assignee = Some ''Eva Martinez'',
     dueDate = Some ''2024-03-25'', createdDate = ''2024-03-08'', updatedDate = ''2024-03-08'',
     project = ''Website Redesign'', tags = Some [''testing'', ''research''],
     estimatedHours = Some 6, actualHours = None\<rparr>"

definition mockTasks :: "Task list" where
  "mockTasks = [task1, task2, task3, task4, task5]"

text \<open>No filter and no sort: what \<open>getTasks()\<close> is called with when it has no argument.\<close>

definition noFilters :: TaskFilters where
  "noFilters = \<lparr>status = None, priority = None, assignee = None, project = None,
     overdue = None, sortBy = None, sortOrder = None\<rparr>"

section \<open>Properties of the sort\<close>

lemma extendRun_append: "extendRun descending cmp previous cs = (run, others) \<Longrightarrow> cs = run @ others"
  by (induction cs arbitrary: previous run others) (auto split: if_splits prod.splits)

lemma countAndMakeRun_short: "length xs < 2 \<Longrightarrow> countAndMakeRun cmp xs = (xs, [])"
proof (cases xs)
  case Nil
  then show ?thesis by simp
next
  case (Cons a t)
  assume "length xs < 2"
  with Cons have "t = []" by simp
  with Cons show ?thesis by simp
qed

lemma short_sorted_wrt: "length xs < 2 \<Longrightarrow> sorted_wrt R xs"
proof (cases xs)
  case Nil
  then show ?thesis by simp
next
  case (Cons a t)
  assume "length xs < 2"
  with Cons have "t = []" by simp
  with Cons show ?thesis by simp
qed

lemma two_or_more: "\<not> length xs < 2 \<Longrightarrow> \<exists>x0 x1 ys. xs = x0 # x1 # ys"
proof (cases xs)
  case Nil
  assume "\<not> length xs < 2"
  with Nil show ?thesis by simp
next
  case (Cons a t)
  assume l: "\<not> length xs < 2"
  show ?thesis
  proof (cases t)
    case Nil
    with Cons l show ?thesis by simp
  next
    case (Cons b u)
    with \<open>xs = a # t\<close> show ?thesis by blast
  qed
qed

lemma mset_countAndMakeRun:
  "countAndMakeRun cmp xs = (run, others) \<Longrightarrow> mset run + mset others = mset xs"
proof (cases "(cmp, xs)" rule: countAndMakeRun.cases)
  case (1 c x0 x1 ys)
  assume r: "countAndMakeRun cmp xs = (run, others)"
  obtain r' o' where e: "extendRun (cmp x1 x0 < 0) cmp x1 ys = (r', o')"
    by (cases "extendRun (cmp x1 x0 < 0) cmp x1 ys")
  then have "ys = r' @ o'" by (rule extendRun_append)
  with 1 r e show ?thesis by (auto split: if_splits)
qed auto

lemma mset_binaryInsert: "mset (binaryInsert cmp pivot placed) = add_mset pivot (mset placed)"
proof -
  have "mset (take i placed) + mset (drop i placed) = mset placed" for i
    by (metis append_take_drop_id mset_append)
  then show ?thesis by (simp add: binaryInsert_def Let_def)
qed

lemma mset_foldl_binaryInsert:
  "mset (foldl (\<lambda>placed pivot. binaryInsert cmp pivot placed) run others) = mset run + mset others"
  by (induction others arbitrary: run) (auto simp: mset_binaryInsert)

lemma mset_arraySort: "mset (arraySort cmp xs) = mset xs"
proof -
  obtain run others where r: "countAndMakeRun cmp xs = (run, others)"
    by (cases "countAndMakeRun cmp xs")
  then show ?thesis
    using mset_countAndMakeRun [OF r] by (simp add: arraySort_def mset_foldl_binaryInsert)
qed

lemma set_arraySort: "set (arraySort cmp xs) = set xs"
  using mset_arraySort [of cmp xs] by (rule mset_eq_setD)

text \<open>
  A class \<open>M\<close> of elements that never compare below anything, and below which every other
  element compares, ends up behind the rest: in the sorted list, whatever follows an
  element of \<open>M\<close> is in \<open>M\<close>.
\<close>

lemma sorted_wrt_all_not:
  "\<forall>y \<in> set ys. \<not> M y
   \<Longrightarrow> sorted_wrt (\<lambda>a b. M a \<longrightarrow> M b) (ys @ zs) = sorted_wrt (\<lambda>a b. M a \<longrightarrow> M b) zs"
  by (induction ys) auto

lemma sorted_wrt_last_Cons:
  assumes s: "sorted_wrt (\<lambda>a b. M a \<longrightarrow> M b) (y # ys)"
    and xy: "M x \<Longrightarrow> M y"
  shows "sorted_wrt (\<lambda>a b. M a \<longrightarrow> M b) (x # y # ys)"
proof -
  have "M z" if "M x" "z \<in> set (y # ys)" for z
  proof (cases "z = y")
    case True
    then show ?thesis using xy that by simp
  next
    case False
    then have "z \<in> set ys" using that by simp
    moreover have "M y" using xy that by simp
    ultimately show ?thesis using s by simp
  qed
  then have "\<forall>z \<in> set (y # ys). M x \<longrightarrow> M z" by blast
  with s show ?thesis
    by (simp del: sorted_wrt.simps(2) add: sorted_wrt.simps(2) [of _ x])
qed

lemma extendRun_ascending_last:
  assumes passes: "\<forall>x y. \<not> M x \<and> M y \<longrightarrow> cmp x y < 0"
  shows "extendRun False cmp previous cs = (run, others)
         \<Longrightarrow> sorted_wrt (\<lambda>a b. M a \<longrightarrow> M b) (previous # run)"
proof (induction cs arbitrary: previous run others)
  case Nil
  then show ?case by simp
next
  case (Cons c cs)
  show ?case
  proof (cases "cmp c previous < 0")
    case True
    with Cons.prems show ?thesis by simp
  next
    case False
    obtain r' o' where e: "extendRun False cmp c cs = (r', o')"
      by (cases "extendRun False cmp c cs")
    with False Cons.prems have run: "run = c # r'" by simp
    have s: "sorted_wrt (\<lambda>a b. M a \<longrightarrow> M b) (c # r')"
      using Cons.IH [OF e] .
    have "M c" if mp: "M previous"
    proof (rule ccontr)
      assume "\<not> M c"
      with mp passes have "cmp c previous < 0" by blast
      with False show False by simp
    qed
    with s show ?thesis unfolding run by (rule sorted_wrt_last_Cons)
  qed
qed

lemma extendRun_descending_none:
  assumes stays: "\<forall>x y. M x \<longrightarrow> \<not> cmp x y < 0"
  shows "extendRun True cmp previous cs = (run, others) \<Longrightarrow> \<forall>x \<in> set run. \<not> M x"
proof (induction cs arbitrary: previous run others)
  case Nil
  then show ?case by simp
next
  case (Cons c cs)
  show ?case
  proof (cases "0 \<le> cmp c previous")
    case True
    with Cons.prems show ?thesis by simp
  next
    case False
    obtain r' o' where e: "extendRun True cmp c cs = (r', o')"
      by (cases "extendRun True cmp c cs")
    with False Cons.prems have run: "run = c # r'" by simp
    have "cmp c previous < 0" using False by simp
    with stays have "\<not> M c" by blast
    with Cons.IH [OF e] show ?thesis unfolding run by simp
  qed
qed

lemma countAndMakeRun_last:
  assumes stays: "\<forall>x y. M x \<longrightarrow> \<not> cmp x y < 0"
    and passes: "\<forall>x y. \<not> M x \<and> M y \<longrightarrow> cmp x y < 0"
    and r: "countAndMakeRun cmp xs = (run, others)"
  shows "sorted_wrt (\<lambda>a b. M a \<longrightarrow> M b) run"
proof (cases "length xs < 2")
  case True
  then have "run = xs" using r by (simp add: countAndMakeRun_short)
  with True show ?thesis by (simp add: short_sorted_wrt)
next
  case False
  then obtain x0 x1 ys where 1: "xs = x0 # x1 # ys"
    using two_or_more by blast
  obtain r' o' where e: "extendRun (cmp x1 x0 < 0) cmp x1 ys = (r', o')"
    by (cases "extendRun (cmp x1 x0 < 0) cmp x1 ys")
  show ?thesis
  proof (cases "cmp x1 x0 < 0")
    case True
    then have run: "run = rev r' @ [x1, x0]"
      using 1 r e by simp
    have "\<not> M x1" using True stays by blast
    moreover have "extendRun True cmp x1 ys = (r', o')"
      using e True by simp
    then have "\<forall>x \<in> set r'. \<not> M x"
      by (rule extendRun_descending_none [OF stays])
    ultimately have "\<forall>y \<in> set (rev r' @ [x1]). \<not> M y" by simp
    from sorted_wrt_all_not [OF this, of "[x0]"] show ?thesis
      unfolding run by simp
  next
    case False
    then have run: "run = x0 # x1 # r'"
      using 1 r e by simp
    have "extendRun False cmp x1 ys = (r', o')"
      using e False by simp
    then have s: "sorted_wrt (\<lambda>a b. M a \<longrightarrow> M b) (x1 # r')"
      by (rule extendRun_ascending_last [OF passes])
    have "M x1" if m0: "M x0"
    proof (rule ccontr)
      assume "\<not> M x1"
      with m0 passes have "cmp x1 x0 < 0" by blast
      with False show False by simp
    qed
    with s show ?thesis unfolding run by (rule sorted_wrt_last_Cons)
  qed
qed

lemma binarySearch_before_last:
  "\<forall>x y. \<not> M x \<and> M y \<longrightarrow> cmp x y < 0 \<Longrightarrow> \<not> M pivot
   \<Longrightarrow> sorted_wrt (\<lambda>a b. M a \<longrightarrow> M b) placed
   \<Longrightarrow> right \<le> length placed \<Longrightarrow> \<forall>j < left. \<not> M (placed ! j)
   \<Longrightarrow> \<forall>j < binarySearch cmp pivot placed left right. \<not> M (placed ! j)"
proof (induction cmp pivot placed left right rule: binarySearch.induct)
  case (1 cmp pivot placed left right)
  let ?mid = "left + (right - left) div 2"
  show ?case
  proof (cases "left < right")
    case False
    then show ?thesis using "1.prems" by (simp add: binarySearch.simps)
  next
    case lr: True
    then have mid: "?mid < right" "left \<le> ?mid" by auto
    show ?thesis
    proof (cases "cmp pivot (placed ! ?mid) < 0")
      case True
      have "\<forall>j < binarySearch cmp pivot placed left ?mid. \<not> M (placed ! j)"
        using "1.IH"(1) [OF lr True] "1.prems" mid by simp
      then show ?thesis using lr True by (subst binarySearch.simps) simp
    next
      case False
      have nm: "\<not> M (placed ! ?mid)"
        using False "1.prems"(1,2) by blast
      have "\<not> M (placed ! j)" if "j < ?mid + 1" for j
      proof (cases "j = ?mid")
        case True
        then show ?thesis using nm by simp
      next
        case False
        then have "j < ?mid" using that by simp
        moreover have "?mid < length placed" using mid "1.prems"(4) by simp
        ultimately have "M (placed ! j) \<longrightarrow> M (placed ! ?mid)"
          using "1.prems"(3) by (simp add: sorted_wrt_iff_nth_less)
        then show ?thesis using nm by blast
      qed
      then have "\<forall>j < binarySearch cmp pivot placed (?mid + 1) right. \<not> M (placed ! j)"
        using "1.IH"(2) [OF lr False] "1.prems" by simp
      then show ?thesis using lr False by (subst binarySearch.simps) simp
    qed
  qed
qed

lemma binarySearch_stays:
  "\<forall>y. \<not> cmp pivot y < 0 \<Longrightarrow> left \<le> right
   \<Longrightarrow> binarySearch cmp pivot placed left right = right"
proof (induction cmp pivot placed left right rule: binarySearch.induct)
  case (1 cmp pivot placed left right)
  show ?case
  proof (cases "left < right")
    case False
    then show ?thesis using "1.prems" by (simp add: binarySearch.simps)
  next
    case True
    have "\<not> cmp pivot (placed ! (left + (right - left) div 2)) < 0"
      using "1.prems"(1) by blast
    moreover from this have
      "binarySearch cmp pivot placed (left + (right - left) div 2 + 1) right = right"
      using "1.IH"(2) [OF True] True "1.prems"(1) by simp
    ultimately show ?thesis using True by (subst binarySearch.simps) simp
  qed
qed

lemma binaryInsert_last:
  assumes stays: "\<forall>x y. M x \<longrightarrow> \<not> cmp x y < 0"
    and passes: "\<forall>x y. \<not> M x \<and> M y \<longrightarrow> cmp x y < 0"
    and s: "sorted_wrt (\<lambda>a b. M a \<longrightarrow> M b) placed"
  shows "sorted_wrt (\<lambda>a b. M a \<longrightarrow> M b) (binaryInsert cmp pivot placed)"
proof (cases "M pivot")
  case True
  then have "\<forall>y. \<not> cmp pivot y < 0" using stays by blast
  then have "binarySearch cmp pivot placed 0 (length placed) = length placed"
    by (simp add: binarySearch_stays)
  then show ?thesis
    using True s by (simp add: binaryInsert_def sorted_wrt_append)
next
  case False
  define i where "i = binarySearch cmp pivot placed 0 (length placed)"
  have before: "\<forall>j < i. \<not> M (placed ! j)"
    unfolding i_def by (rule binarySearch_before_last [OF passes False s]) simp_all
  have nm: "\<not> M x" if "x \<in> set (take i placed)" for x
  proof -
    from that obtain j where "j < length (take i placed)" "take i placed ! j = x"
      by (auto simp: in_set_conv_nth)
    then show ?thesis using before by auto
  qed
  have td: "sorted_wrt (\<lambda>a b. M a \<longrightarrow> M b) (take i placed @ drop i placed)"
    using s by simp
  have "sorted_wrt (\<lambda>a b. M a \<longrightarrow> M b) (take i placed @ pivot # drop i placed)"
    unfolding sorted_wrt_append
  proof (intro conjI ballI)
    show "sorted_wrt (\<lambda>a b. M a \<longrightarrow> M b) (take i placed)"
      using td by (simp add: sorted_wrt_append)
    show "sorted_wrt (\<lambda>a b. M a \<longrightarrow> M b) (pivot # drop i placed)"
      using td False by (simp add: sorted_wrt_append)
    show "M x \<longrightarrow> M y" if "x \<in> set (take i placed)" "y \<in> set (pivot # drop i placed)" for x y
      using nm [OF that(1)] by simp
  qed
  then show ?thesis by (simp add: binaryInsert_def Let_def i_def)
qed

lemma foldl_binaryInsert_last:
  assumes stays: "\<forall>x y. M x \<longrightarrow> \<not> cmp x y < 0"
    and passes: "\<forall>x y. \<not> M x \<and> M y \<longrightarrow> cmp x y < 0"
  shows "sorted_wrt (\<lambda>a b. M a \<longrightarrow> M b) run
         \<Longrightarrow> sorted_wrt (\<lambda>a b. M a \<longrightarrow> M b)
               (foldl (\<lambda>placed pivot. binaryInsert cmp pivot placed) run others)"
proof (induction others arbitrary: run)
  case Nil
  then show ?case by simp
next
  case (Cons p ps)
  have "sorted_wrt (\<lambda>a b. M a \<longrightarrow> M b) (binaryInsert cmp p run)"
    using stays passes Cons.prems by (rule binaryInsert_last)
  from Cons.IH [OF this] show ?case by simp
qed

lemma arraySort_last:
  assumes stays: "\<forall>x y. M x \<longrightarrow> \<not> cmp x y < 0"
    and passes: "\<forall>x y. \<not> M x \<and> M y \<longrightarrow> cmp x y < 0"
  shows "sorted_wrt (\<lambda>a b. M a \<longrightarrow> M b) (arraySort cmp xs)"
proof -
  obtain run others where r: "countAndMakeRun cmp xs = (run, others)"
    by (cases "countAndMakeRun cmp xs")
  have "sorted_wrt (\<lambda>a b. M a \<longrightarrow> M b) run"
    using stays passes r by (rule countAndMakeRun_last)
  then have "sorted_wrt (\<lambda>a b. M a \<longrightarrow> M b)
               (foldl (\<lambda>placed pivot. binaryInsert cmp pivot placed) run others)"
    by (rule foldl_binaryInsert_last [OF stays passes])
  then show ?thesis
    using r by (simp add: arraySort_def)
qed

lemma last_split:
  "sorted_wrt (\<lambda>a b. M a \<longrightarrow> M b) xs \<Longrightarrow> xs = filter (\<lambda>x. \<not> M x) xs @ filter M xs"
proof (induction xs)
  case Nil
  then show ?case by simp
next
  case (Cons x xs)
  show ?case
  proof (cases "M x")
    case True
    then have "\<forall>y \<in> set xs. M y" using Cons.prems by simp
    then have "filter (\<lambda>x. \<not> M x) xs = []" "filter M xs = xs"
      by (simp_all add: filter_empty_conv filter_id_conv)
    then show ?thesis using True by simp
  next
    case False
    then show ?thesis using Cons by simp
  qed
qed















section \<open>Properties of the comparators\<close>



lemma compareRows_missing_first: "isMissing (getField a k) \<Longrightarrow> compareRows k d a b = 1"
  by (simp add: compareRows_def)

lemma compareRows_missing_second:
  "\<not> isMissing (getField a k) \<Longrightarrow> isMissing (getField b k) \<Longrightarrow> compareRows k d a b = - 1"
  by (simp add: compareRows_def)



lemma isLetterNotI_facts:
  "isLetterNotI c \<Longrightarrow> \<not> isWhiteSpace c \<and> \<not> isDigit c \<and> c \<noteq> CHR ''-'' \<and> c \<noteq> CHR ''+''"
  by (auto simp: isLetterNotI_def isWhiteSpace_def isDigit_def)

lemma nonNumeric_NaN: "nonNumeric s \<Longrightarrow> stringToNumber s = None"
proof -
  assume "nonNumeric s"
  then obtain c r where d: "dropWhile isWhiteSpace s = c # r" and l: "isLetterNotI c"
    by (auto simp: nonNumeric_def split: list.splits)
  have nw: "\<not> isWhiteSpace c" using l isLetterNotI_facts by blast
  have "dropWhile isWhiteSpace (rev r @ c # []) = dropWhile isWhiteSpace (rev r) @ c # []"
    using nw by (rule dropWhile_append3)
  then have "trim s = c # rev (dropWhile isWhiteSpace (rev r))"
    by (simp add: trim_def d)
  then show ?thesis
    using l isLetterNotI_facts [of c] by (simp add: stringToNumber_def Let_def)
qed







section \<open>Properties of the filters\<close>

lemma passesFilters_iff:
  "passesFilters fs row \<longleftrightarrow>
     (\<forall>(k, v) \<in> set fs.
        v = [] \<or> indexOf (toLowerCase (jsString (getField row k))) (toLowerCase v) \<noteq> - 1)"
  by (induction fs row rule: passesFilters.induct) auto

lemma keepsRow_iff:
  "keepsRow fs q cols row \<longleftrightarrow> passesFilters fs row \<and> (q = [] \<or> matchesSearch q cols row)"
  by (auto simp: keepsRow_def)

lemma passesFilters_empty_values: "list_all (\<lambda>(k, v). v = []) fs \<Longrightarrow> passesFilters fs row"
  by (induction fs) auto

section \<open>Properties of the grouping\<close>

lemma map_of_setProp: "map_of (setProp obj k v) = (map_of obj)(k \<mapsto> v)"
  by (induction obj) (auto simp: fun_eq_iff)

lemma keys_setProp: "fst ` set (setProp obj k v) = insert k (fst ` set obj)"
  by (induction obj) auto

lemma distinct_setProp: "distinct (map fst obj) \<Longrightarrow> distinct (map fst (setProp obj k v))"
  by (induction obj) (auto simp: keys_setProp)

lemma bucketOf_setProp:
  "bucketOf (setProp groups k v) c = (if c = k then v else bucketOf groups c)"
  by (simp add: bucketOf_def map_of_setProp)

lemma mset_concat_setProp:
  "distinct (map fst groups) \<Longrightarrow>
   mset (concat (map snd (setProp groups k (bucketOf groups k @ [x]))))
     = add_mset x (mset (concat (map snd groups)))"
proof (induction groups)
  case Nil
  then show ?case by (simp add: bucketOf_def)
next
  case (Cons p ps)
  show ?case
  proof (cases "fst p = k")
    case True
    then show ?thesis by (cases p) (simp add: bucketOf_def)
  next
    case False
    then have "bucketOf (p # ps) k = bucketOf ps k"
      by (cases p) (auto simp: bucketOf_def)
    with False Cons show ?thesis by simp
  qed
qed

lemma pushToGroup_ok:
  "k \<notin> set objectPrototypeNames \<Longrightarrow>
   pushToGroup groups k x = Inr (setProp groups k (bucketOf groups k @ [x]))"
  by (auto simp: pushToGroup_def getProp_def bucketOf_def split: option.splits)

lemma pushToGroup_inherited:
  "k \<in> set objectPrototypeNames \<Longrightarrow> map_of groups k = None \<Longrightarrow>
   pushToGroup groups k x = Inl (TypeError ''groups[key].push is not a function'')"
  by (simp add: pushToGroup_def getProp_def)

text \<open>
  When no key is the name of an inherited member, the \<open>reduce\<close> returns, the buckets
  hold every element once, and the bucket of a key holds the elements with that key in
  input order.
\<close>

lemma reduceGroups_ok:
  assumes "\<forall>x \<in> set xs. keyOf x \<notin> set objectPrototypeNames"
    and "distinct (map fst groups)"
  shows "\<exists>res. reduceGroups keyOf groups xs = Inr res
           \<and> distinct (map fst res)
           \<and> mset (concat (map snd res)) = mset (concat (map snd groups)) + mset xs
           \<and> (\<forall>c. bucketOf res c = bucketOf groups c @ filter (\<lambda>x. keyOf x = c) xs)"
  using assms
proof (induction xs arbitrary: groups)
  case Nil
  then show ?case by simp
next
  case (Cons x xs)
  let ?g = "setProp groups (keyOf x) (bucketOf groups (keyOf x) @ [x])"
  have step: "pushToGroup groups (keyOf x) x = Inr ?g"
    using Cons.prems by (simp add: pushToGroup_ok)
  have d: "distinct (map fst ?g)"
    using Cons.prems by (simp add: distinct_setProp)
  from Cons.IH [of ?g] Cons.prems d obtain res where
    res: "reduceGroups keyOf ?g xs = Inr res" "distinct (map fst res)"
      "mset (concat (map snd res)) = mset (concat (map snd ?g)) + mset xs"
      "\<forall>c. bucketOf res c = bucketOf ?g c @ filter (\<lambda>x. keyOf x = c) xs"
    by auto
  have "reduceGroups keyOf groups (x # xs) = Inr res"
    using step res(1) by simp
  moreover have "mset (concat (map snd res)) = mset (concat (map snd groups)) + mset (x # xs)"
    using res(3) Cons.prems(2) by (simp add: mset_concat_setProp)
  moreover have "\<forall>c. bucketOf res c = bucketOf groups c @ filter (\<lambda>y. keyOf y = c) (x # xs)"
    using res(4) by (auto simp: bucketOf_setProp)
  ultimately show ?case using res(2) by blast
qed

text \<open>The first element whose key names an inherited member stops the \<open>reduce\<close>.\<close>

lemma reduceGroups_inherited:
  assumes "x \<in> set xs" and "keyOf x \<in> set objectPrototypeNames"
    and "\<forall>k \<in> fst ` set groups. k \<notin> set objectPrototypeNames"
  shows "reduceGroups keyOf groups xs = Inl (TypeError ''groups[key].push is not a function'')"
  using assms
proof (induction xs arbitrary: groups)
  case Nil
  then show ?case by simp
next
  case (Cons y ys)
  show ?case
  proof (cases "keyOf y \<in> set objectPrototypeNames")
    case True
    then have "map_of groups (keyOf y) = None"
      using Cons.prems(3) by (metis map_of_eq_None_iff)
    then show ?thesis using True by (simp add: pushToGroup_inherited)
  next
    case False
    let ?g = "setProp groups (keyOf y) (bucketOf groups (keyOf y) @ [y])"
    have "pushToGroup groups (keyOf y) y = Inr ?g"
      using False by (simp add: pushToGroup_ok)
    moreover have "x \<in> set ys" using Cons.prems False by auto
    moreover have "\<forall>k \<in> fst ` set ?g. k \<notin> set objectPrototypeNames"
      using Cons.prems(3) False by (simp add: keys_setProp)
    ultimately show ?thesis using Cons.IH [of ?g] Cons.prems(2) by simp
  qed
qed

lemma groupTasks_partition:
  assumes "\<forall>t \<in> set tasks. groupKey groupBy t \<notin> set objectPrototypeNames"
  shows "\<exists>groups. groupTasks tasks groupBy = Inr groups
           \<and> mset (concat (map snd groups)) = mset tasks"
proof (cases "groupBy = ByNone")
  case True
  then show ?thesis by (simp add: groupTasks_def)
next
  case False
  with reduceGroups_ok [OF assms, of "[]"] show ?thesis
    by (auto simp: groupTasks_def)
qed

lemma groupIssues_partition:
  assumes "\<forall>i \<in> set issues. issueKey groupBy i \<notin> set objectPrototypeNames"
  shows "\<exists>groups. groupIssues issues groupBy = Inr groups
           \<and> mset (concat (map snd groups)) = mset issues"
proof (cases "groupBy = ''none''")
  case True
  then show ?thesis by (simp add: groupIssues_def)
next
  case False
  with reduceGroups_ok [OF assms, of "[]"] show ?thesis
    by (auto simp: groupIssues_def)
qed

lemma statusToColumn_default: "statusToColumn st \<in> set defaultColumns"
  by (simp add: statusToColumn_def defaultColumns_def)

lemma defaultColumns_not_inherited: "c \<in> set defaultColumns \<Longrightarrow> c \<notin> set objectPrototypeNames"
  by (auto simp: defaultColumns_def objectPrototypeNames_def)

lemma columnTasks_bucketOf:
  "c \<notin> set objectPrototypeNames \<Longrightarrow> columnTasks acc c = Some (bucketOf acc c)"
  by (auto simp: columnTasks_def getProp_def bucketOf_def split: option.splits)

lemma column_partition:
  "(\<Sum>c\<leftarrow>defaultColumns. length (filter (\<lambda>t. statusToColumn (Task.status t) = c) tasks))
     = length tasks"
  by (induction tasks) (auto simp: defaultColumns_def statusToColumn_def)

section \<open>The claims\<close>

subsection \<open>Order of the group headings\<close>

text \<open>
  Claim C1: when the task list groups by priority, the headings come in rank order
  critical, high, medium, low (todo, in-progress, review, done when it groups by status),
  and keys outside the table come after the known ones.

  On the service's own five tasks the code puts \<open>critical\<close> last, and \<open>todo\<close> last:
  their rank is \<open>0\<close>, which \<open>order[key] || 999\<close> replaces by \<open>999\<close>, the rank meant for
  the keys that the table does not have.
\<close>

theorem sortedGroupKeys_rank_zero_last:
  "taskListKeys localeCompare '''' ByPriority mockTasks
     = Inr [''high'', ''medium'', ''low'', ''critical'']
   \<and> taskListKeys localeCompare '''' ByStatus mockTasks
     = Inr [''in-progress'', ''review'', ''done'', ''todo'']
   \<and> getPriorityOrder ''critical'' = Some 999
   \<and> getStatusOrder ''todo'' = Some 999"
  by code_simp

subsection \<open>Rows without the sort field\<close>

text \<open>
  The comparator of the data table never puts a row that misses the field below another
  row, and puts every other row below it; so in the sorted rows whatever follows a row
  that misses the field misses it too.
\<close>

lemma sortedData_last:
  "sorted_wrt (\<lambda>a b. isMissing (getField a k) \<longrightarrow> isMissing (getField b k))
     (sortedData (Some (k, Some d)) rows)"
proof -
  have "\<forall>x y. isMissing (getField x k) \<longrightarrow> \<not> compareRows k d x y < 0"
    by (simp add: compareRows_missing_first)
  moreover have "\<forall>x y. \<not> isMissing (getField x k) \<and> isMissing (getField y k)
                   \<longrightarrow> compareRows k d x y < 0"
    by (simp add: compareRows_missing_second)
  ultimately have "sorted_wrt (\<lambda>a b. isMissing (getField a k) \<longrightarrow> isMissing (getField b k))
                     (arraySort (compareRows k d) rows)"
    by (rule arraySort_last)
  then show ?thesis by (simp add: sortedData_def)
qed

lemma mset_sortedData: "mset (sortedData sortConfig rows) = mset rows"
  by (simp add: sortedData_def mset_arraySort split: option.splits prod.splits)

lemma length_sortedData: "length (sortedData sortConfig rows) = length rows"
  using mset_sortedData [of sortConfig rows] by (rule mset_eq_length)

lemma take_drop_append_length:
  "length xs = n \<Longrightarrow> take n (xs @ ys) = xs \<and> drop n (xs @ ys) = ys"
  by simp

text \<open>
  Claim C2, as amended (data table): for every list of rows, sort key and direction, every
  row whose sort field is \<open>null\<close> or \<open>undefined\<close> comes after all rows that have the
  field. With \<open>n\<close> rows that have the field, the first \<open>n\<close> rows of the output have it
  and the others miss it, whatever the direction; no row is lost or added.
\<close>

theorem sortedData_missing_last:
  "list_all (\<lambda>r. \<not> isMissing (getField r k))
     (take (length (filter (\<lambda>r. \<not> isMissing (getField r k)) rows))
        (sortedData (Some (k, Some d)) rows))
   \<and> list_all (\<lambda>r. isMissing (getField r k))
     (drop (length (filter (\<lambda>r. \<not> isMissing (getField r k)) rows))
        (sortedData (Some (k, Some d)) rows))
   \<and> mset (sortedData (Some (k, Some d)) rows) = mset rows"
proof -
  define sorted where "sorted = sortedData (Some (k, Some d)) rows"
  define present where "present = filter (\<lambda>r. \<not> isMissing (getField r k)) sorted"
  define missing where "missing = filter (\<lambda>r. isMissing (getField r k)) sorted"
  have m: "mset sorted = mset rows"
    unfolding sorted_def by (rule mset_sortedData)
  have parts: "sorted = present @ missing"
    unfolding present_def missing_def sorted_def
    by (rule last_split [OF sortedData_last])
  have "mset present = mset (filter (\<lambda>r. \<not> isMissing (getField r k)) rows)"
    unfolding present_def using m by (simp add: mset_filter)
  then have len: "length present = length (filter (\<lambda>r. \<not> isMissing (getField r k)) rows)"
    by (rule mset_eq_length)
  have td: "take (length (filter (\<lambda>r. \<not> isMissing (getField r k)) rows)) sorted = present
            \<and> drop (length (filter (\<lambda>r. \<not> isMissing (getField r k)) rows)) sorted = missing"
    unfolding parts by (rule take_drop_append_length [OF len])
  have p: "list_all (\<lambda>r. \<not> isMissing (getField r k)) present"
    by (simp add: list_all_iff present_def)
  have ms: "list_all (\<lambda>r. isMissing (getField r k)) missing"
    by (simp add: list_all_iff missing_def)
  from td p ms m show ?thesis
    unfolding sorted_def by simp
qed

text \<open>
  The rows \<open>[{id: 2}, {id: 1, due: "2024-01-01"}]\<close>, sorted by \<open>due\<close> in descending
  and in ascending order: one row has the field, and the row after it is the one without.
\<close>

theorem sortedData_missing_last_witness:
  "list_all (\<lambda>r. isMissing (getField r ''due''))
     (drop 1 (sortedData (Some (''due'', Some Desc))
                [[(''id'', JNum 2)], [(''id'', JNum 1), (''due'', JStr ''2024-01-01'')]]))
   \<and> list_all (\<lambda>r. isMissing (getField r ''due''))
     (drop 1 (sortedData (Some (''due'', Some Asc))
                [[(''id'', JNum 2)], [(''id'', JNum 1), (''due'', JStr ''2024-01-01'')]]))
   \<and> sortedData (Some (''due'', Some Asc))
        [[(''id'', JNum 2)], [(''id'', JNum 1), (''due'', JStr ''2024-01-01'')]]
      = [[(''id'', JNum 1), (''due'', JStr ''2024-01-01'')], [(''id'', JNum 2)]]"
proof -
  let ?rows = "[[(''id'', JNum 2)], [(''id'', JNum 1), (''due'', JStr ''2024-01-01'')]]"
  have n: "length (filter (\<lambda>r. \<not> isMissing (getField r ''due'')) ?rows) = 1"
    by (simp add: isMissing_def getField_def)
  note desc = sortedData_missing_last [of "''due''" ?rows Desc, THEN conjunct2, THEN conjunct1,
      unfolded n]
  note asc = sortedData_missing_last [of "''due''" ?rows Asc, THEN conjunct2, THEN conjunct1,
      unfolded n]
  have "sortedData (Some (''due'', Some Asc)) ?rows
        = [[(''id'', JNum 1), (''due'', JStr ''2024-01-01'')], [(''id'', JNum 2)]]"
    by code_simp
  with desc asc show ?thesis by (intro conjI)
qed

text \<open>
  Claim C2 as stated fails on \<open>getTasks\<close>, which reads a missing due date as
  \<open>new Date(0)\<close>: of task 1 (due 2024-03-15) and a task without due date, sorted by due
  date in ascending order, the task without due date comes first.
\<close>

theorem getTasks_missing_dueDate_first:
  "map id_task
     (getTasks [task1, task5\<lparr>Task.dueDate := None\<rparr>] 0
        (noFilters\<lparr>sortBy := Some SortDueDate, sortOrder := Some Asc\<rparr>))
   = [''task-5'', ''task-1'']"
  by code_simp

subsection \<open>Column filters\<close>

text \<open>
  Claim C3: the column filters are conjunctive and monotone. A row is kept exactly when it
  is in the input, contains every non-empty filter value in the filtered field, and
  matches the search term if there is one; and when every non-empty constraint of \<open>F'\<close> is
  a constraint of \<open>F\<close>, the rows kept under \<open>F\<close> are rows kept under \<open>F'\<close>, in the same
  order.
\<close>

theorem filteredData_monotone:
  assumes "\<forall>(k, v) \<in> set F'. v \<noteq> [] \<longrightarrow> (k, v) \<in> set F"
  shows "filteredData F q cols R = filter (passesFilters F) (filteredData F' q cols R)
         \<and> subseq (filteredData F q cols R) (filteredData F' q cols R)
         \<and> set (filteredData F q cols R) \<subseteq> set (filteredData F' q cols R)
         \<and> (row \<in> set (filteredData F q cols R) \<longleftrightarrow>
              row \<in> set R
              \<and> (\<forall>(k, v) \<in> set F.
                    v = [] \<or> indexOf (toLowerCase (jsString (getField row k))) (toLowerCase v) \<noteq> - 1)
              \<and> (q = [] \<or> matchesSearch q cols row))"
proof -
  have imp: "passesFilters F r \<Longrightarrow> passesFilters F' r" for r
    using assms unfolding passesFilters_iff by fastforce
  have eq: "filteredData F q cols R = filter (passesFilters F) (filteredData F' q cols R)"
    unfolding filteredData_def filter_filter
    by (rule filter_cong) (auto simp: keepsRow_iff dest: imp)
  have sub: "subseq (filteredData F q cols R) (filteredData F' q cols R)"
    unfolding eq by simp
  have incl: "set (filteredData F q cols R) \<subseteq> set (filteredData F' q cols R)"
    unfolding eq by auto
  have "row \<in> set (filteredData F q cols R) \<longleftrightarrow>
              row \<in> set R
              \<and> (\<forall>(k, v) \<in> set F.
                    v = [] \<or> indexOf (toLowerCase (jsString (getField row k))) (toLowerCase v) \<noteq> - 1)
              \<and> (q = [] \<or> matchesSearch q cols row)"
    by (simp add: filteredData_def keepsRow_iff passesFilters_iff)
  with eq sub incl show ?thesis by blast
qed

text \<open>
  Two rows, filtered by name and role and then by name alone (the role filter emptied):
  the second result contains the first.
\<close>

theorem filteredData_monotone_witness:
  "subseq
     (filteredData [(''name'', ''al''), (''role'', ''dev'')] [] []
        [[(''name'', JStr ''Alice''), (''role'', JStr ''Developer'')],
         [(''name'', JStr ''Alan''), (''role'', JStr ''Designer'')]])
     (filteredData [(''name'', ''al''), (''role'', '''')] [] []
        [[(''name'', JStr ''Alice''), (''role'', JStr ''Developer'')],
         [(''name'', JStr ''Alan''), (''role'', JStr ''Designer'')]])"
proof -
  have h: "\<forall>(k, v) \<in> set [(''name'', ''al''), (''role'', '''')].
             v \<noteq> [] \<longrightarrow> (k, v) \<in> set [(''name'', ''al''), (''role'', ''dev'')]"
    by simp
  show ?thesis
    using filteredData_monotone [OF h] by blast
qed


subsection \<open>Grouping\<close>

text \<open>
  Claim C4: for every list of records and every grouping, the buckets partition the input.

  A task assigned to \<open>constructor\<close>, grouped by assignee: \<open>groups["constructor"]\<close> is
  the function inherited from \<open>Object.prototype\<close>, no bucket is created and the \<open>push\<close>
  raises; the issue list does the same on an issue whose status is \<open>constructor\<close>. There
  are no buckets at all. (For keys that name no inherited member the buckets do partition
  the input: \<open>groupTasks_partition\<close>, \<open>groupIssues_partition\<close>.)
\<close>

theorem groupTasks_inherited_key_raises:
  "groupTasks [task1\<lparr>Task.assignee := Some ''constructor''\<rparr>] ByAssignee
     = Inl (TypeError ''groups[key].push is not a function'')
   \<and> groupIssues
        [\<lparr>id_issue = ''1'', identifier_issue = ''ENG-1'', title = ''Fix login'',
          description = None, status = ''constructor'', priority = ''high'',
          assignee = None, project = None, labels = None,
          createdAt = ''2024-03-01'', updatedAt = ''2024-03-01'',
          dueDate = None, estimate = None\<rparr>] ''status''
     = Inl (TypeError ''groups[key].push is not a function'')"
  by code_simp

subsection \<open>Blank search terms\<close>

text \<open>
  Claim C5, as amended: in the task list, an empty or white-space-only query returns all
  tasks unchanged; in the data table, the empty search term returns all rows unchanged
  when no column filter has a value.
\<close>

theorem blank_search_keeps_all:
  "(trim searchQuery = [] \<longrightarrow> filterTasks tasks searchQuery = tasks)
   \<and> (list_all (\<lambda>(k, v). v = []) filters \<longrightarrow> filteredData filters [] columns rows = rows)"
  by (auto simp: filterTasks_def filteredData_def keepsRow_def passesFilters_empty_values)

theorem blank_search_keeps_all_witness:
  "filterTasks mockTasks ''   '' = mockTasks
   \<and> filteredData [(''name'', '''')] []
        [\<lparr>key = ''name'', label = ''Name'', sortable = None, filterable = Some True,
          format = None, width = None\<rparr>]
        [[(''name'', JStr ''Alice'')]]
      = [[(''name'', JStr ''Alice'')]]"
proof -
  have blank: "trim ''   '' = []"
    by (simp add: trim_def isWhiteSpace_def)
  have empty: "list_all (\<lambda>(k, v). v = []) [(''name'', '''')]"
    by simp
  show ?thesis
    using blank_search_keeps_all [of "''   ''" mockTasks "[(''name'', '''')]"
        "[\<lparr>key = ''name'', label = ''Name'', sortable = None, filterable = Some True,
           format = None, width = None\<rparr>]"
        "[[(''name'', JStr ''Alice'')]]"]
      blank empty
    by blast
qed

text \<open>
  Claim C5 as stated fails on the data table, which tests the search term for emptiness
  only and does not trim it: the term of one space keeps the rows that contain a space,
  and the single row \<open>{name: "Alice"}\<close> is dropped.
\<close>

theorem filteredData_whitespace_term:
  "filteredData [] '' ''
     [\<lparr>key = ''name'', label = ''Name'', sortable = None, filterable = None,
       format = None, width = None\<rparr>]
     [[(''name'', JStr ''Alice'')]]
   = []"
  by code_simp

subsection \<open>Absent fields in the search\<close>

text \<open>
  Claim C6: a field that a row does not have counts as the empty string in the search and
  never matches a non-empty term.

  The code searches \<open>String(row[col.key])\<close>, and \<open>String(undefined)\<close> is the text
  \<open>undefined\<close>: the row \<open>{id: 1}\<close>, which has no \<open>name\<close>, is found by the search term
  \<open>undefined\<close> in the column \<open>name\<close> (as by \<open>def\<close> or \<open>fin\<close>), and by a
  column filter of that value.
\<close>

theorem filteredData_absent_field_matches:
  "filteredData [] ''undefined''
     [\<lparr>key = ''name'', label = ''Name'', sortable = None, filterable = None,
       format = None, width = None\<rparr>]
     [[(''id'', JNum 1)]]
   = [[(''id'', JNum 1)]]
   \<and> filteredData [(''name'', ''fin'')] []
     [\<lparr>key = ''name'', label = ''Name'', sortable = None, filterable = Some True,
       format = None, width = None\<rparr>]
     [[(''id'', JNum 1)]]
   = [[(''id'', JNum 1)]]"
  by code_simp

subsection \<open>Stability of the sort\<close>




subsection \<open>Values of mixed types\<close>

text \<open>
  Claim C8, as amended: sorting a column of mixed values never raises: the result is a
  rearrangement of the rows. A number and a string that is no number compare as equal: the
  comparator returns \<open>0\<close> whichever comes first, as neither \<open><\<close> nor \<open>>\<close> holds.
  The values are not turned into strings.
\<close>

theorem compareRows_number_string:
  "mset (sortedData sortConfig rows) = mset rows
   \<and> (nonNumeric s \<and> getField a k = JNum n \<and> getField b k = JStr s
        \<longrightarrow> compareRows k d a b = 0 \<and> compareRows k d b a = 0)"
  by (auto simp: sortedData_def mset_arraySort compareRows_def isMissing_def numLess_def
      nonNumeric_NaN split: option.splits prod.splits)

theorem compareRows_number_string_witness:
  "compareRows ''v'' Desc [(''v'', JNum 10)] [(''v'', JStr ''abc'')] = 0
   \<and> compareRows ''v'' Desc [(''v'', JStr ''abc'')] [(''v'', JNum 10)] = 0
   \<and> mset (sortedData (Some (''v'', Some Desc)) [[(''v'', JStr ''abc'')], [(''v'', JNum 10)]])
      = mset [[(''v'', JStr ''abc'')], [(''v'', JNum 10)]]"
proof -
  have h: "nonNumeric ''abc'' \<and> getField [(''v'', JNum 10)] ''v'' = JNum 10
           \<and> getField [(''v'', JStr ''abc'')] ''v'' = JStr ''abc''"
    by (simp add: nonNumeric_def isLetterNotI_def isWhiteSpace_def getField_def)
  show ?thesis
    using compareRows_number_string [of "Some (''v'', Some Desc)"
        "[[(''v'', JStr ''abc'')], [(''v'', JNum 10)]]" "''abc''" "[(''v'', JNum 10)]" "''v''" 10
        "[(''v'', JStr ''abc'')]" Desc] h
    by blast
qed

text \<open>
  Claim C8 as stated fails: \<open>10\<close> and \<open>"abc"\<close> compare as equal, whereas their strings
  \<open>"10"\<close> and \<open>"abc"\<close> do not.
\<close>

theorem compareRows_no_string_coercion:
  "compareRows ''v'' Asc [(''v'', JNum 10)] [(''v'', JStr ''abc'')] = 0
   \<and> jsString (JNum 10) < jsString (JStr ''abc'')"
  by code_simp

subsection \<open>Page count\<close>




subsection \<open>Kanban columns\<close>

text \<open>
  Claim C10: the board puts every task into exactly one bucket (the grouping returns, its
  keys are distinct and its buckets together hold the tasks, each once); the bucket of a
  default column holds the tasks whose status maps to it, and a status that is none of
  \<open>todo\<close>, \<open>in-progress\<close>, \<open>review\<close>, \<open>done\<close> maps to \<open>To Do\<close>; with the default
  columns, the counts in the headers add up to the number of tasks.
\<close>

theorem kanban_buckets:
  "(\<exists>acc. tasksByColumn tasks = Inr acc
      \<and> distinct (map fst acc)
      \<and> mset (concat (map snd acc)) = mset tasks
      \<and> (\<forall>c \<in> set defaultColumns.
            columnTasks acc c = Some (filter (\<lambda>t. statusToColumn (Task.status t) = c) tasks)))
   \<and> (st \<notin> {''todo'', ''in-progress'', ''review'', ''done''} \<longrightarrow> statusToColumn st = ''To Do'')
   \<and> columnCounts tasks defaultColumns
        = Inr (map (\<lambda>c. Some (length (filter (\<lambda>t. statusToColumn (Task.status t) = c) tasks)))
                 defaultColumns)
   \<and> (\<Sum>c\<leftarrow>defaultColumns. length (filter (\<lambda>t. statusToColumn (Task.status t) = c) tasks))
        = length tasks"
proof -
  have "\<forall>t \<in> set tasks. statusToColumn (Task.status t) \<notin> set objectPrototypeNames"
    using statusToColumn_default defaultColumns_not_inherited by blast
  from reduceGroups_ok [OF this, of "[]"] obtain acc where
    acc: "tasksByColumn tasks = Inr acc" "distinct (map fst acc)"
      "mset (concat (map snd acc)) = mset tasks"
      "\<forall>c. bucketOf acc c = filter (\<lambda>t. statusToColumn (Task.status t) = c) tasks"
    by (auto simp: tasksByColumn_def bucketOf_def)
  have cols: "\<forall>c \<in> set defaultColumns.
            columnTasks acc c = Some (filter (\<lambda>t. statusToColumn (Task.status t) = c) tasks)"
    using acc(4) by (simp add: columnTasks_bucketOf defaultColumns_not_inherited)
  have "columnCounts tasks defaultColumns
        = Inr (map (\<lambda>c. Some (length (filter (\<lambda>t. statusToColumn (Task.status t) = c) tasks)))
                 defaultColumns)"
    using acc(1) cols by (simp add: columnCounts_def)
  moreover have "st \<notin> {''todo'', ''in-progress'', ''review'', ''done''}
                 \<longrightarrow> statusToColumn st = ''To Do''"
    by (simp add: statusToColumn_def)
  ultimately show ?thesis
    using acc(1,2,3) cols column_partition by blast
qed

text \<open>
  The service's five tasks, the first with a status the board does not know: two tasks
  in \<open>To Do\<close> and that one make three, and the counts are 3, 0, 1, 1.
\<close>

theorem kanban_buckets_witness:
  "statusToColumn ''blocked'' = ''To Do''
   \<and> columnCounts [task1\<lparr>Task.status := ''blocked''\<rparr>, task2, task3, task4, task5] defaultColumns
      = Inr [Some 3, Some 0, Some 1, Some 1]"
proof -
  have notin: "''blocked'' \<notin> {''todo'', ''in-progress'', ''review'', ''done''}"
    by simp
  have counts:
    "map (\<lambda>c. Some (length (filter (\<lambda>t. statusToColumn (Task.status t) = c)
            [task1\<lparr>Task.status := ''blocked''\<rparr>, task2, task3, task4, task5])))
       defaultColumns
     = [Some 3, Some 0, Some 1, Some 1]"
    by (simp add: defaultColumns_def statusToColumn_def task1_def task2_def task3_def
        task4_def task5_def)
  show ?thesis
    using kanban_buckets [of "[task1\<lparr>Task.status := ''blocked''\<rparr>, task2, task3, task4, task5]"
        "''blocked''"] notin
    unfolding counts by blast
qed

end
